theory Spec2Isabelle
  imports Complex_Main "HOL-Library.AList"
begin

section \<open>Python strings\<close>

text \<open>
  A Python \<open>str\<close> is a sequence of Unicode code points, so a character is modelled by
  its code point and a string by the list of them. \<open>py\<close> reads a literal of the source.
\<close>

type_synonym pychar = nat
type_synonym pystr = "pychar list"

definition py :: "string \<Rightarrow> pystr" where
  "py s = map of_char s"

text \<open>
  \<open>str.isspace\<close> on one character, which is what \<open>str.strip()\<close> and the regular
  expression class \<open>\s\<close> test: the characters of CPython's whitespace table.
\<close>

definition isspace :: "pychar \<Rightarrow> bool" where
  "isspace c =
     (c \<in> set [9, 10, 11, 12, 13, 28, 29, 30, 31, 32, 133, 160, 5760,
                8232, 8233, 8239, 8287, 12288]
      \<or> (8192 \<le> c \<and> c \<le> 8202))"

text \<open>The line boundaries of \<open>str.splitlines()\<close>.\<close>

definition is_linebreak :: "pychar \<Rightarrow> bool" where
  "is_linebreak c = (c \<in> set [10, 11, 12, 13, 28, 29, 30, 133, 8232, 8233])"

definition startswith :: "pystr \<Rightarrow> pystr \<Rightarrow> bool" where
  "startswith s p = (take (length p) s = p)"

definition strip_with :: "(pychar \<Rightarrow> bool) \<Rightarrow> pystr \<Rightarrow> pystr" where
  "strip_with P s = rev (dropWhile P (rev (dropWhile P s)))"

text \<open>\<open>s.strip()\<close>, \<open>s.strip(chars)\<close> and \<open>s.lstrip(chars)\<close>.\<close>

definition strip :: "pystr \<Rightarrow> pystr" where
  "strip s = strip_with isspace s"

definition strip_chars :: "pystr \<Rightarrow> pystr \<Rightarrow> pystr" where
  "strip_chars chars s = strip_with (\<lambda>c. c \<in> set chars) s"

definition lstrip_chars :: "pystr \<Rightarrow> pystr \<Rightarrow> pystr" where
  "lstrip_chars chars s = dropWhile (\<lambda>c. c \<in> set chars) s"

text \<open>
  \<open>s.replace(old, new)\<close> for a non-empty \<open>old\<close>: the occurrences are replaced from the
  left and do not overlap.
\<close>

fun replace :: "pystr \<Rightarrow> pystr \<Rightarrow> pystr \<Rightarrow> pystr" where
  "replace old new [] = []"
| "replace old new (c # cs) =
     (if old \<noteq> [] \<and> startswith (c # cs) old
      then new @ replace old new (drop (length old - 1) cs)
      else c # replace old new cs)"

text \<open>
  \<open>s.splitlines()\<close>: a line ends at a line boundary, \<open>\r\n\<close> counts as one boundary, the
  boundaries are dropped, and a text that ends with a boundary has no empty last line.
  \<open>cur\<close> is the line read so far.
\<close>

fun splitlines_from :: "pystr \<Rightarrow> pystr \<Rightarrow> pystr list" where
  "splitlines_from cur [] = (if cur = [] then [] else [cur])"
| "splitlines_from cur (c # cs) =
     (if is_linebreak c
      then cur # splitlines_from []
             (if c = 13 \<and> startswith cs [10] then tl cs else cs)
      else splitlines_from (cur @ [c]) cs)"

definition splitlines :: "pystr \<Rightarrow> pystr list" where
  "splitlines s = splitlines_from [] s"

section \<open>The two regular expressions\<close>

text \<open>
  \<open>pattern.search(line)\<close> tries the pattern at every position from the left and returns
  the first match; \<open>m\<close> is the pattern anchored at the start of its argument, returning
  group 1.
\<close>

fun re_search :: "(pystr \<Rightarrow> pystr option) \<Rightarrow> pystr \<Rightarrow> pystr option" where
  "re_search m [] = m []"
| "re_search m (c # cs) =
     (case m (c # cs) of Some g \<Rightarrow> Some g | None \<Rightarrow> re_search m cs)"

text \<open>
  \<^verbatim>\<open>ITEM_TEMPLATE_RE = \{\{\s*[iI]tem\|([^|}]+)\<close>.
  After the two braces \<open>\s*\<close> has to take the whole run of whitespace, since the next
  character must be \<open>i\<close> or \<open>I\<close>; the group is the longest run without \<open>|\<close> and \<open>}\<close>
  and must not be empty.
\<close>

definition ITEM_TEMPLATE_RE :: "pystr \<Rightarrow> pystr option" where
  "ITEM_TEMPLATE_RE s =
     (if startswith s (py ''{{'') then
        (let r = dropWhile isspace (drop 2 s) in
         if (startswith r (py ''item|'') \<or> startswith r (py ''Item|'')) then
           (let g = takeWhile (\<lambda>c. c \<notin> set (py ''|}'')) (drop 5 r) in
            if g \<noteq> [] then Some g else None)
         else None)
      else None)"

text \<open>
  \<^verbatim>\<open>WIKI_LINK_RE = \[\[([^|\]]+)[^\]]*\]\]\<close>.
  The group and the class after it together take the run of characters up to the first
  \<open>]\<close>, which must be followed by a second \<open>]\<close>; the group, being greedy, is the longest
  prefix of that run without \<open>|\<close>, and must not be empty.
\<close>

definition WIKI_LINK_RE :: "pystr \<Rightarrow> pystr option" where
  "WIKI_LINK_RE s =
     (if startswith s (py ''[['') then
        (let r = drop 2 s;
             g = takeWhile (\<lambda>c. c \<notin> set (py ''|]'')) r;
             rest = dropWhile (\<lambda>c. c \<notin> set (py '']'')) r
         in if g \<noteq> [] \<and> startswith rest (py '']]'') then Some g else None)
      else None)"

text \<open>\<open>_extract_item_name\<close>: the item template first, the wiki link second.\<close>

definition extract_item_name :: "pystr \<Rightarrow> pystr option" where
  "extract_item_name line =
     (case re_search ITEM_TEMPLATE_RE line of
        Some g \<Rightarrow> Some (strip g)
      | None \<Rightarrow>
          (case re_search WIKI_LINK_RE line of
             Some g \<Rightarrow> Some (strip g)
           | None \<Rightarrow> None))"

section \<open>Dictionaries and errors\<close>

datatype error = KeyError | FetchUnavailable

text \<open>
  A \<open>dict\<close> keeps its keys in insertion order: an association list with distinct keys.
  \<open>setdefault\<close> adds the key at the end when it is absent and changes nothing otherwise.
  \<open>at_key d k f\<close> is the subscript \<open>d[k]\<close>, which raises \<open>KeyError\<close> on an absent key,
  followed by the in-place change \<open>f\<close> of the object found there.
\<close>

type_synonym 'v dict = "(pystr \<times> 'v) list"

definition setdefault :: "'v dict \<Rightarrow> pystr \<Rightarrow> 'v \<Rightarrow> 'v dict" where
  "setdefault d k v = (case map_of d k of None \<Rightarrow> d @ [(k, v)] | Some _ \<Rightarrow> d)"

definition at_key :: "'v dict \<Rightarrow> pystr \<Rightarrow> ('v \<Rightarrow> error + 'v) \<Rightarrow> error + 'v dict" where
  "at_key d k f =
     (case map_of d k of
        None \<Rightarrow> Inl KeyError
      | Some v \<Rightarrow> (case f v of Inl e \<Rightarrow> Inl e | Inr v' \<Rightarrow> Inr (AList.update k v' d)))"

section \<open>parse_guide\<close>

type_synonym index = "pystr list dict dict dict"

record parse_state =
  result :: index
  phase :: "pystr option"
  terraria_class :: "pystr option"
  category :: "pystr option"

text \<open>The truth value of a variable that holds \<open>None\<close> or a string.\<close>

definition truthy :: "pystr option \<Rightarrow> bool" where
  "truthy x = (case x of None \<Rightarrow> False | Some s \<Rightarrow> s \<noteq> [])"

text \<open>
  The body of the loop of \<open>parse_guide\<close>, for one line. \<open>the\<close> is applied to a cursor
  only under the test that it is truthy.
\<close>

definition parse_line :: "parse_state \<Rightarrow> pystr \<Rightarrow> error + parse_state" where
  "parse_line st raw_line =
     (let line = strip raw_line in
      if startswith line (py ''=='') \<and> \<not> startswith line (py ''==='') then
        (let ph = strip (replace (py ''&nbsp;'') (py '' '') (strip_chars (py ''= '') line)) in
         Inr (st\<lparr>result := setdefault (result st) ph [], phase := Some ph,
                 terraria_class := None, category := None\<rparr>))
      else if startswith line (py ''==='') then
        (let cl = strip (strip_chars (py ''= '') line) in
         case (if truthy (phase st)
               then at_key (result st) (the (phase st)) (\<lambda>classes. Inr (setdefault classes cl []))
               else Inr (result st)) of
           Inl e \<Rightarrow> Inl e
         | Inr r \<Rightarrow> Inr (st\<lparr>result := r, terraria_class := Some cl, category := None\<rparr>))
      else if startswith line (py '';'') then
        (let cat = strip (lstrip_chars (py '';'') line) in
         case (if truthy (phase st) \<and> truthy (terraria_class st)
               then at_key (result st) (the (phase st)) (\<lambda>classes.
                      at_key classes (the (terraria_class st)) (\<lambda>cats.
                        Inr (setdefault cats cat [])))
               else Inr (result st)) of
           Inl e \<Rightarrow> Inl e
         | Inr r \<Rightarrow> Inr (st\<lparr>result := r, category := Some cat\<rparr>))
      else if startswith line (py ''*'') \<and> truthy (phase st) \<and> truthy (terraria_class st)
              \<and> truthy (category st) then
        (case extract_item_name line of
           None \<Rightarrow> Inr st
         | Some name \<Rightarrow>
             if name \<noteq> [] then
               (case at_key (result st) (the (phase st)) (\<lambda>classes.
                       at_key classes (the (terraria_class st)) (\<lambda>cats.
                         at_key cats (the (category st)) (\<lambda>items. Inr (items @ [name])))) of
                  Inl e \<Rightarrow> Inl e
                | Inr r \<Rightarrow> Inr (st\<lparr>result := r\<rparr>))
             else Inr st)
      else Inr st)"

fun parse_lines :: "parse_state \<Rightarrow> pystr list \<Rightarrow> error + parse_state" where
  "parse_lines st [] = Inr st"
| "parse_lines st (l # ls) =
     (case parse_line st l of Inl e \<Rightarrow> Inl e | Inr st' \<Rightarrow> parse_lines st' ls)"

definition initial :: parse_state where
  "initial = \<lparr>result = [], phase = None, terraria_class = None, category = None\<rparr>"

definition parse_guide :: "pystr \<Rightarrow> error + index" where
  "parse_guide wikitext =
     (case parse_lines initial (splitlines wikitext) of
        Inl e \<Rightarrow> Inl e
      | Inr st \<Rightarrow> Inr (result st))"

section \<open>get_guide_data\<close>

text \<open>
  The two globals of the cache, and the number of calls of \<open>fetch_wikitext\<close> made so far.
  The clock of the event loop is read as a real number. \<open>net\<close> is what the wiki answers
  when it is asked: the text of the page, or a failure.
\<close>

record provider =
  GuideCache :: index
  GuideFetchedAt :: "real option"
  fetches :: nat

definition CACHE_TTL :: real where
  "CACHE_TTL = 60 * 60"

definition fetch_wikitext :: "error + pystr \<Rightarrow> provider \<Rightarrow> (error + pystr) \<times> provider" where
  "fetch_wikitext net s = (net, s\<lparr>fetches := fetches s + 1\<rparr>)"

definition get_guide_data ::
    "real \<Rightarrow> error + pystr \<Rightarrow> provider \<Rightarrow> (error + index) \<times> provider" where
  "get_guide_data now net s =
     (if GuideCache s \<noteq> []
         \<and> (case GuideFetchedAt s of None \<Rightarrow> False
             | Some t \<Rightarrow> t \<noteq> 0 \<and> now - t < CACHE_TTL)
      then (Inr (GuideCache s), s)
      else
        (case fetch_wikitext net s of
           (Inl e, s1) \<Rightarrow> (Inl e, s1)
         | (Inr text, s1) \<Rightarrow>
             (case parse_guide text of
                Inl e \<Rightarrow> (Inl e, s1)
              | Inr idx \<Rightarrow> (Inr idx, s1\<lparr>GuideCache := idx, GuideFetchedAt := Some now\<rparr>))))"

definition empty_provider :: provider where
  "empty_provider = \<lparr>GuideCache = [], GuideFetchedAt = None, fetches = 0\<rparr>"

section \<open>Notions used in the properties\<close>

text \<open>
  Reading the index: the class dictionary of a phase is \<open>map_of idx p\<close>; \<open>lookup2\<close> is
  the category dictionary of a class of a phase, \<open>lookup3\<close> the item list of a category.
  An index is valid when the keys of every dictionary in it are distinct. The four
  predicates on a raw line are the tests of the loop body, in its order. \<open>cursor_ok\<close> says
  that the keys the cursor names are registered wherever the loop will subscript them.
\<close>

definition lookup2 :: "index \<Rightarrow> pystr \<Rightarrow> pystr \<Rightarrow> pystr list dict option" where
  "lookup2 idx p c = (case map_of idx p of None \<Rightarrow> None | Some classes \<Rightarrow> map_of classes c)"

definition lookup3 :: "index \<Rightarrow> pystr \<Rightarrow> pystr \<Rightarrow> pystr \<Rightarrow> pystr list option" where
  "lookup3 idx p c k = (case lookup2 idx p c of None \<Rightarrow> None | Some cats \<Rightarrow> map_of cats k)"

definition wf_dict :: "('v \<Rightarrow> bool) \<Rightarrow> 'v dict \<Rightarrow> bool" where
  "wf_dict P d = (distinct (map fst d) \<and> list_all P (map snd d))"

definition valid_index :: "index \<Rightarrow> bool" where
  "valid_index idx = wf_dict (wf_dict (wf_dict (\<lambda>items. True))) idx"

definition phase_heading :: "pystr \<Rightarrow> bool" where
  "phase_heading raw_line =
     (startswith (strip raw_line) (py ''=='') \<and> \<not> startswith (strip raw_line) (py ''===''))"

definition class_heading :: "pystr \<Rightarrow> bool" where
  "class_heading raw_line = startswith (strip raw_line) (py ''==='')"

definition category_line :: "pystr \<Rightarrow> bool" where
  "category_line raw_line =
     (\<not> startswith (strip raw_line) (py ''=='') \<and> startswith (strip raw_line) (py '';''))"

definition bullet_line :: "pystr \<Rightarrow> bool" where
  "bullet_line raw_line = startswith (strip raw_line) (py ''*'')"

definition cursor_ok :: "parse_state \<Rightarrow> bool" where
  "cursor_ok st =
     ((\<forall>p. phase st = Some p \<longrightarrow> map_of (result st) p \<noteq> None)
      \<and> (\<forall>p c. phase st = Some p \<and> p \<noteq> [] \<and> terraria_class st = Some c
             \<longrightarrow> lookup2 (result st) p c \<noteq> None)
      \<and> (\<forall>p c k. phase st = Some p \<and> p \<noteq> [] \<and> terraria_class st = Some c \<and> c \<noteq> []
               \<and> category st = Some k
             \<longrightarrow> lookup3 (result st) p c k \<noteq> None))"

text \<open>
  The text a phase, class or category line yields, and the bodies of the first two
  branches of the loop, named so that a property can say which branch a line took.
\<close>

definition phase_text :: "pystr \<Rightarrow> pystr" where
  "phase_text line = strip (replace (py ''&nbsp;'') (py '' '') (strip_chars (py ''= '') line))"

definition class_text :: "pystr \<Rightarrow> pystr" where
  "class_text line = strip (strip_chars (py ''= '') line)"

definition category_text :: "pystr \<Rightarrow> pystr" where
  "category_text line = strip (lstrip_chars (py '';'') line)"

definition phase_branch :: "parse_state \<Rightarrow> pystr \<Rightarrow> error + parse_state" where
  "phase_branch st line =
     Inr (st\<lparr>result := setdefault (result st) (phase_text line) [],
             phase := Some (phase_text line), terraria_class := None, category := None\<rparr>)"

definition class_branch :: "parse_state \<Rightarrow> pystr \<Rightarrow> error + parse_state" where
  "class_branch st line =
     (case (if truthy (phase st)
            then at_key (result st) (the (phase st))
                   (\<lambda>classes. Inr (setdefault classes (class_text line) []))
            else Inr (result st)) of
        Inl e \<Rightarrow> Inl e
      | Inr r \<Rightarrow> Inr (st\<lparr>result := r, terraria_class := Some (class_text line),
                        category := None\<rparr>))"

text \<open>
  \<open>index_le idx idx'\<close>: every key of \<open>idx\<close>, at each of the three levels, is still a key of
  \<open>idx'\<close>. The scan only ever adds keys and items.
\<close>

definition dict_le :: "('v \<Rightarrow> 'v \<Rightarrow> bool) \<Rightarrow> 'v dict \<Rightarrow> 'v dict \<Rightarrow> bool" where
  "dict_le R d d' = (\<forall>k v. map_of d k = Some v \<longrightarrow> (\<exists>v'. map_of d' k = Some v' \<and> R v v'))"

definition index_le :: "index \<Rightarrow> index \<Rightarrow> bool" where
  "index_le idx idx' = dict_le (dict_le (dict_le (\<lambda>items items'. True))) idx idx'"

text \<open>
  What one bullet line adds to the item list of the active category, and what a run
  of bullet lines adds: the names extracted, the empty ones left out.
\<close>

definition recorded :: "pystr \<Rightarrow> pystr list" where
  "recorded raw_line =
     (case extract_item_name (strip raw_line) of
        None \<Rightarrow> []
      | Some name \<Rightarrow> if name \<noteq> [] then [name] else [])"

definition item_names :: "pystr list \<Rightarrow> pystr list" where
  "item_names ls = concat (map recorded ls)"

text \<open>
  Two states of the scan that hold the same index and the same phase, and differ at
  most in a part of the cursor that cannot be used: under a phase that is not truthy
  the class and the category, under a class that is not truthy the category.
\<close>

definition agree :: "parse_state \<Rightarrow> parse_state \<Rightarrow> bool" where
  "agree s t =
     (result s = result t \<and> phase s = phase t
      \<and> ((terraria_class s = terraria_class t \<and> category s = category t)
         \<or> \<not> truthy (phase s)
         \<or> (terraria_class s = terraria_class t \<and> \<not> truthy (terraria_class s))))"

text \<open>
  A sequence of calls of \<open>get_guide_data\<close>, each with its clock reading and the answer of
  the wiki; and the state of the scan after a phase, a class and a category line.
\<close>

fun calls :: "provider \<Rightarrow> (real \<times> (error + pystr)) list \<Rightarrow> provider" where
  "calls s [] = s"
| "calls s ((now, net) # cs) = calls (snd (get_guide_data now net s)) cs"

definition example_state :: parse_state where
  "example_state =
     \<lparr>result = [(py ''P'', [(py ''C'', [(py ''W'', [])])])], phase = Some (py ''P''),
      terraria_class = Some (py ''C''), category = Some (py ''W'')\<rparr>"

section \<open>Dictionaries, lines and the invariant of the scan\<close>

lemma map_of_setdefault:
  "map_of (setdefault d k v) k' =
     (case map_of d k' of Some x \<Rightarrow> Some x | None \<Rightarrow> if k' = k then Some v else None)"
  by (auto simp: setdefault_def map_add_def split: option.splits)

lemma wf_dict_setdefault: "wf_dict P d \<Longrightarrow> P v \<Longrightarrow> wf_dict P (setdefault d k v)"
  by (auto simp: wf_dict_def setdefault_def map_of_eq_None_iff split: option.splits)

lemma wf_dict_lookup: "wf_dict P d \<Longrightarrow> map_of d k = Some v \<Longrightarrow> P v"
  by (auto simp: wf_dict_def list_all_iff dest!: map_of_SomeD)

lemma wf_dict_update: "wf_dict P d \<Longrightarrow> P v \<Longrightarrow> wf_dict P (AList.update k v d)"
  by (induction d) (auto simp: wf_dict_def  AList.update_keys)

lemma wf_dict_at_key:
  assumes "wf_dict P d" and "at_key d k f = Inr d'"
    and "\<And>v v'. P v \<Longrightarrow> f v = Inr v' \<Longrightarrow> P v'"
  shows "wf_dict P d'"
  using assms
  by (auto simp: at_key_def split: option.splits sum.splits intro!: wf_dict_update dest: wf_dict_lookup)

lemma at_key_Some:
  "map_of d k = Some v \<Longrightarrow> at_key d k f = (case f v of Inl e \<Rightarrow> Inl e | Inr v' \<Rightarrow> Inr (AList.update k v' d))"
  by (simp add: at_key_def)

lemma startswith3_2: "startswith s (py ''==='') \<Longrightarrow> startswith s (py ''=='')"
  by (cases s; cases "tl s"; cases "tl (tl s)") (auto simp: startswith_def py_def)

lemma parse_line_phase:
  assumes "phase_heading raw"
  shows "parse_line st raw =
           Inr (st\<lparr>result := setdefault (result st)
                     (strip (replace (py ''&nbsp;'') (py '' '') (strip_chars (py ''= '') (strip raw)))) [],
                   phase := Some (strip (replace (py ''&nbsp;'') (py '' '') (strip_chars (py ''= '') (strip raw)))),
                   terraria_class := None, category := None\<rparr>)"
  using assms by (simp add: parse_line_def phase_heading_def Let_def)

lemma parse_line_class:
  assumes "class_heading raw"
  shows "parse_line st raw =
           (case (if truthy (phase st)
                  then at_key (result st) (the (phase st))
                         (\<lambda>classes. Inr (setdefault classes (strip (strip_chars (py ''= '') (strip raw))) []))
                  else Inr (result st)) of
              Inl e \<Rightarrow> Inl e
            | Inr r \<Rightarrow> Inr (st\<lparr>result := r,
                              terraria_class := Some (strip (strip_chars (py ''= '') (strip raw))),
                              category := None\<rparr>))"
  using assms by (simp add: parse_line_def class_heading_def Let_def)

lemma not_heading_iff:
  "(\<not> phase_heading raw \<and> \<not> class_heading raw) = (\<not> startswith (strip raw) (py ''==''))"
  by (auto simp: phase_heading_def class_heading_def dest: startswith3_2)

lemma bullet_not_other:
  "bullet_line raw \<Longrightarrow> \<not> startswith (strip raw) (py ''=='') \<and> \<not> startswith (strip raw) (py '';'')"
  by (cases "strip raw") (auto simp: bullet_line_def startswith_def py_def)

lemma parse_line_category:
  assumes "category_line raw"
  shows "parse_line st raw =
           (case (if truthy (phase st) \<and> truthy (terraria_class st)
                  then at_key (result st) (the (phase st)) (\<lambda>classes.
                         at_key classes (the (terraria_class st)) (\<lambda>cats.
                           Inr (setdefault cats (strip (lstrip_chars (py '';'') (strip raw))) [])))
                  else Inr (result st)) of
              Inl e \<Rightarrow> Inl e
            | Inr r \<Rightarrow> Inr (st\<lparr>result := r,
                              category := Some (strip (lstrip_chars (py '';'') (strip raw)))\<rparr>))"
  using assms startswith3_2 [of "strip raw"]
  by (auto simp add: parse_line_def category_line_def Let_def)

lemma parse_line_bullet:
  assumes "bullet_line raw"
  shows "parse_line st raw =
           (if truthy (phase st) \<and> truthy (terraria_class st) \<and> truthy (category st) then
              (case extract_item_name (strip raw) of
                 None \<Rightarrow> Inr st
               | Some name \<Rightarrow>
                   if name \<noteq> [] then
                     (case at_key (result st) (the (phase st)) (\<lambda>classes.
                             at_key classes (the (terraria_class st)) (\<lambda>cats.
                               at_key cats (the (category st)) (\<lambda>items. Inr (items @ [name])))) of
                        Inl e \<Rightarrow> Inl e
                      | Inr r \<Rightarrow> Inr (st\<lparr>result := r\<rparr>))
                   else Inr st)
            else Inr st)"
  using bullet_not_other [OF assms] startswith3_2 [of "strip raw"] assms
  by (auto simp add: parse_line_def bullet_line_def Let_def)

lemma parse_line_other:
  assumes "\<not> startswith (strip raw) (py ''=='')" "\<not> startswith (strip raw) (py '';'')"
     "\<not> startswith (strip raw) (py ''*'')"
  shows "parse_line st raw = Inr st"
  using assms startswith3_2 [of "strip raw"]
  by (auto simp add: parse_line_def Let_def)

lemma line_cases:
  obtains (phase) "phase_heading raw" | (cls) "class_heading raw" | (cat) "category_line raw"
   | (bullet) "bullet_line raw"
   | (other) "\<not> startswith (strip raw) (py ''=='')" "\<not> startswith (strip raw) (py '';'')"
     "\<not> startswith (strip raw) (py ''*'')"
  using startswith3_2 [of "strip raw"]
  by (auto simp: phase_heading_def class_heading_def category_line_def bullet_line_def)

lemma map_of_setdefault_ex: "\<exists>y. map_of (setdefault d k v) k = Some y"
  by (simp add: map_of_setdefault split: option.splits)

lemma truthy_Some: "truthy x = (\<exists>s. x = Some s \<and> s \<noteq> [])"
  by (cases x) (auto simp: truthy_def)

lemma step_phase:
  assumes "phase_heading raw" "cursor_ok st"
  shows "\<exists>st'. parse_line st raw = Inr st' \<and> cursor_ok st'"
  using assms(2) unfolding parse_line_phase [OF assms(1)]
  by (simp add: cursor_ok_def map_of_setdefault_ex)

lemma step_class:
  assumes "class_heading raw" "cursor_ok st"
  shows "\<exists>st'. parse_line st raw = Inr st' \<and> cursor_ok st'"
proof (cases "truthy (phase st)")
  case False
  then show ?thesis using assms(2) unfolding parse_line_class [OF assms(1)]
    by (auto simp: cursor_ok_def truthy_Some)
next
  case True
  then obtain p where p: "phase st = Some p" "p \<noteq> []" by (auto simp: truthy_Some)
  with assms(2) obtain classes where c: "map_of (result st) p = Some classes"
    by (auto simp: cursor_ok_def)
  show ?thesis unfolding parse_line_class [OF assms(1)] using True p c
    by (simp add: at_key_Some cursor_ok_def lookup2_def lookup3_def update_conv' map_of_setdefault_ex)
qed

lemma step_category:
  assumes "category_line raw" "cursor_ok st"
  shows "\<exists>st'. parse_line st raw = Inr st' \<and> cursor_ok st'"
proof (cases "truthy (phase st) \<and> truthy (terraria_class st)")
  case False
  then show ?thesis using assms(2) unfolding parse_line_category [OF assms(1)]
    by (auto simp: cursor_ok_def truthy_Some)
next
  case True
  then obtain p c where p: "phase st = Some p" "p \<noteq> []" "terraria_class st = Some c" "c \<noteq> []"
    by (auto simp: truthy_Some)
  with assms(2) obtain classes cats where c: "map_of (result st) p = Some classes"
      "map_of classes c = Some cats"
    by (auto simp: cursor_ok_def lookup2_def split: option.splits)
  show ?thesis unfolding parse_line_category [OF assms(1)] using True p c
    by (simp add: at_key_Some cursor_ok_def lookup2_def lookup3_def update_conv' map_of_setdefault_ex)
qed

lemma step_bullet:
  assumes "bullet_line raw" "cursor_ok st"
  shows "\<exists>st'. parse_line st raw = Inr st' \<and> cursor_ok st'"
proof (cases "truthy (phase st) \<and> truthy (terraria_class st) \<and> truthy (category st)")
  case False
  then show ?thesis using assms(2) unfolding parse_line_bullet [OF assms(1)]
    by auto
next
  case True
  then obtain p c k where p: "phase st = Some p" "p \<noteq> []" "terraria_class st = Some c" "c \<noteq> []"
     "category st = Some k"
    by (auto simp: truthy_Some)
  with assms(2) obtain classes cats its where c: "map_of (result st) p = Some classes"
      "map_of classes c = Some cats" "map_of cats k = Some its"
    by (auto simp: cursor_ok_def lookup2_def lookup3_def split: option.splits)
  show ?thesis unfolding parse_line_bullet [OF assms(1)] using True p c assms(2)
    by (simp add: at_key_Some cursor_ok_def lookup2_def lookup3_def update_conv' split: option.splits)
qed

lemma step_ok: "cursor_ok st \<Longrightarrow> \<exists>st'. parse_line st raw = Inr st' \<and> cursor_ok st'"
  by (cases raw rule: line_cases)
     (auto intro: step_phase step_class step_category step_bullet simp: parse_line_other)

lemma parse_lines_ok: "cursor_ok st \<Longrightarrow> \<exists>st'. parse_lines st ls = Inr st' \<and> cursor_ok st'"
proof (induction ls arbitrary: st)
  case Nil then show ?case by simp
next
  case (Cons l ls)
  from step_ok [OF Cons.prems, of l] obtain st1 where "parse_line st l = Inr st1" "cursor_ok st1"
    by blast
  with Cons.IH [of st1] show ?case by simp
qed

lemma wf_dict_Nil: "wf_dict P []"
  by (simp add: wf_dict_def)

lemma wf_at_key_setdefault:
  assumes "wf_dict (wf_dict P) d" and "P v"
    and "at_key d k (\<lambda>x. Inr (setdefault x k' v)) = Inr d'"
  shows "wf_dict (wf_dict P) d'"
proof (rule wf_dict_at_key [OF assms(1) assms(3)])
  fix x x' assume "wf_dict P x" and "Inr (setdefault x k' v) = (Inr x' :: error + 'a dict)"
  then show "wf_dict P x'" using assms(2) by (auto intro: wf_dict_setdefault)
qed

lemma wf_at_key_nested:
  assumes "wf_dict (wf_dict P) d" and "at_key d k (\<lambda>x. at_key x k' f) = Inr d'"
    and "\<And>v v'. P v \<Longrightarrow> f v = Inr v' \<Longrightarrow> P v'"
  shows "wf_dict (wf_dict P) d'"
proof (rule wf_dict_at_key [OF assms(1) assms(2)])
  fix x x' assume "wf_dict P x" and "at_key x k' f = Inr x'"
  then show "wf_dict P x'" using assms(3) by (rule wf_dict_at_key)
qed

lemma valid_phase:
  assumes "phase_heading raw" "valid_index (result st)" "parse_line st raw = Inr st'"
  shows "valid_index (result st')"
  using assms(2,3) unfolding parse_line_phase [OF assms(1)] valid_index_def
  by (auto intro!: wf_dict_setdefault wf_dict_Nil)

lemma valid_class:
  assumes "class_heading raw" "valid_index (result st)" "parse_line st raw = Inr st'"
  shows "valid_index (result st')"
proof (cases "truthy (phase st)")
  case False
  then show ?thesis using assms(2,3) unfolding parse_line_class [OF assms(1)]
    by auto
next
  case True
  with assms(3) obtain r where r: "at_key (result st) (the (phase st))
        (\<lambda>classes. Inr (setdefault classes (strip (strip_chars (py ''= '') (strip raw))) [])) = Inr r"
      and st': "result st' = r"
    unfolding parse_line_class [OF assms(1)] by (auto split: sum.splits)
  have "wf_dict (wf_dict (wf_dict (\<lambda>items. True))) (result st)"
    using assms(2) by (simp add: valid_index_def)
  from wf_at_key_setdefault [OF this _ r] show ?thesis
    by (simp add: st' valid_index_def wf_dict_Nil)
qed

lemma valid_category:
  assumes "category_line raw" "valid_index (result st)" "parse_line st raw = Inr st'"
  shows "valid_index (result st')"
proof (cases "truthy (phase st) \<and> truthy (terraria_class st)")
  case False
  then show ?thesis using assms(2,3) unfolding parse_line_category [OF assms(1)]
    by auto
next
  case True
  with assms(3) obtain r where r: "at_key (result st) (the (phase st)) (\<lambda>classes.
                         at_key classes (the (terraria_class st)) (\<lambda>cats.
                           Inr (setdefault cats (strip (lstrip_chars (py '';'') (strip raw))) [])))
        = Inr r" and st': "result st' = r"
    unfolding parse_line_category [OF assms(1)] by (auto split: sum.splits)
  have "wf_dict (wf_dict (wf_dict (\<lambda>items. True))) r"
  proof (rule wf_at_key_nested [OF _ r])
    show "wf_dict (wf_dict (wf_dict (\<lambda>items. True))) (result st)"
      using assms(2) by (simp add: valid_index_def)
  next
    fix v v' :: "pystr list dict"
    assume "wf_dict (\<lambda>items. True) v"
      and "Inr (setdefault v (strip (lstrip_chars (py '';'') (strip raw))) []) = (Inr v' :: error + pystr list dict)"
    then show "wf_dict (\<lambda>items. True) v'" by (auto intro: wf_dict_setdefault)
  qed
  then show ?thesis by (simp add: st' valid_index_def)
qed

lemma valid_bullet:
  assumes "bullet_line raw" "valid_index (result st)" "parse_line st raw = Inr st'"
  shows "valid_index (result st')"
proof (cases "result st' = result st")
  case True
  then show ?thesis using assms(2) by simp
next
  case False
  with assms(3) obtain r name where r: "at_key (result st) (the (phase st)) (\<lambda>classes.
                             at_key classes (the (terraria_class st)) (\<lambda>cats.
                               at_key cats (the (category st)) (\<lambda>items. Inr (items @ [name]))))
        = Inr r" and st': "result st' = r"
    unfolding parse_line_bullet [OF assms(1)] by (auto split: sum.splits if_splits option.splits)
  have "wf_dict (wf_dict (wf_dict (\<lambda>items. True))) r"
  proof (rule wf_at_key_nested [OF _ r])
    show "wf_dict (wf_dict (wf_dict (\<lambda>items. True))) (result st)"
      using assms(2) by (simp add: valid_index_def)
  next
    fix v v' :: "pystr list dict"
    assume "wf_dict (\<lambda>items. True) v"
      and "at_key v (the (category st)) (\<lambda>items. Inr (items @ [name])) = Inr v'"
    then show "wf_dict (\<lambda>items. True) v'" by (rule wf_dict_at_key) simp
  qed
  then show ?thesis by (simp add: st' valid_index_def)
qed

lemma valid_step:
  "valid_index (result st) \<Longrightarrow> parse_line st raw = Inr st' \<Longrightarrow> valid_index (result st')"
  by (cases raw rule: line_cases)
     (auto intro: valid_phase valid_class valid_category valid_bullet simp: parse_line_other)

lemma valid_parse_lines:
  "valid_index (result st) \<Longrightarrow> parse_lines st ls = Inr st' \<Longrightarrow> valid_index (result st')"
  by (induction ls arbitrary: st) (auto split: sum.splits dest: valid_step)

lemma cursor_ok_initial: "cursor_ok initial"
  by (simp add: cursor_ok_def initial_def)

lemma valid_initial: "valid_index (result initial)"
  by (simp add: valid_index_def initial_def wf_dict_Nil)

section \<open>Evaluation on concrete pages\<close>

text \<open>The example of the specification, and the state used in the examples below.\<close>

lemmas ev = py_def strip_def strip_with_def isspace_def is_linebreak_def startswith_def
  strip_chars_def lstrip_chars_def splitlines_def ITEM_TEMPLATE_RE_def WIKI_LINK_RE_def
  extract_item_name_def setdefault_def at_key_def truthy_def parse_line_def initial_def
  parse_guide_def Let_def

lemma example_scenario:
  "parse_guide (py ''== Phase A =='' @ [10] @ py ''=== Ranged ==='' @ [10] @ py '';Weapons''
                  @ [10] @ py ''* {{item|Sword}}'' @ [10] @ py ''* [[Bow]]'')
     = Inr [(py ''Phase A'', [(py ''Ranged'', [(py ''Weapons'', [py ''Sword'', py ''Bow''])])])]"
  by (simp add: ev)

lemma example_state_reached:
  "parse_lines initial [py ''== P =='', py ''=== C ==='', py '';W''] = Inr example_state"
  by (simp add: ev example_state_def)

lemma example_state_active:
  "phase example_state = Some (py ''P'')" "py ''P'' \<noteq> []"
  "terraria_class example_state = Some (py ''C'')" "py ''C'' \<noteq> []"
  "category example_state = Some (py ''W'')" "py ''W'' \<noteq> []"
  "lookup3 (result example_state) (py ''P'') (py ''C'') (py ''W'') = Some []"
  by (simp_all add: example_state_def py_def lookup3_def lookup2_def)

section \<open>Branches and whitespace\<close>

lemma parse_line_on_phase: "phase_heading raw \<Longrightarrow> parse_line st raw = phase_branch st (strip raw)"
  unfolding phase_branch_def phase_text_def by (simp add: parse_line_phase)

lemma parse_line_on_class: "class_heading raw \<Longrightarrow> parse_line st raw = class_branch st (strip raw)"
  unfolding class_branch_def class_text_def by (simp add: parse_line_class)

lemma branches_differ: "phase_branch st line \<noteq> class_branch st line'"
  by (auto simp: phase_branch_def class_branch_def split: sum.splits if_splits
       dest: arg_cong [where f = terraria_class])

lemma dropWhile_all: "list_all P ws \<Longrightarrow> dropWhile P (ws @ xs) = dropWhile P xs"
  by (induction ws) auto

lemma strip_with_surround:
  assumes "list_all P ws1" "list_all P ws2"
  shows "strip_with P (ws1 @ l @ ws2) = strip_with P l"
proof -
  have a: "dropWhile P (ws1 @ l @ ws2) = dropWhile P (l @ ws2)"
    using assms(1) by (rule dropWhile_all)
  have r: "list_all P (rev ws2)" using assms(2) by (simp add: list_all_iff)
  show ?thesis
  proof (cases "list_all P l")
    case True
    then have "list_all P (l @ ws2)" using assms(2) by simp
    then have d: "dropWhile P (l @ ws2) = []" "dropWhile P l = []"
      using True unfolding dropWhile_eq_Nil_conv list_all_iff by blast+
    show ?thesis by (simp only: strip_with_def a d)
  next
    case False
    then have "dropWhile P (l @ ws2) = dropWhile P l @ ws2"
      by (auto simp: list_all_iff dropWhile_append1)
    then show ?thesis using dropWhile_all [OF r, of "rev (dropWhile P l)"]
      by (simp add: strip_with_def a)
  qed
qed

lemma strip_surround:
  "list_all isspace ws1 \<Longrightarrow> list_all isspace ws2 \<Longrightarrow> strip (ws1 @ l @ ws2) = strip l"
  by (simp add: strip_def strip_with_surround)

lemma parse_lines_append:
  "parse_lines st (a @ b) =
     (case parse_lines st a of Inl e \<Rightarrow> Inl e | Inr st' \<Rightarrow> parse_lines st' b)"
  by (induction a arbitrary: st) (auto split: sum.splits)

lemma reachable_ok: "parse_lines initial pre = Inr st \<Longrightarrow> cursor_ok st"
  using parse_lines_ok [OF cursor_ok_initial, of pre] by auto

section \<open>Keys are never removed\<close>

lemma dict_le_refl: "(\<And>v. R v v) \<Longrightarrow> dict_le R d d"
  by (simp add: dict_le_def)

lemma dict_le_trans:
  assumes "\<And>a b c. R a b \<Longrightarrow> R b c \<Longrightarrow> R a c" "dict_le R d1 d2" "dict_le R d2 d3"
  shows "dict_le R d1 d3"
  unfolding dict_le_def
proof (intro allI impI)
  fix k v assume "map_of d1 k = Some v"
  with assms(2) obtain v2 where v2: "map_of d2 k = Some v2" "R v v2" by (auto simp: dict_le_def)
  with assms(3) obtain v3 where "map_of d3 k = Some v3" "R v2 v3" by (auto simp: dict_le_def)
  with v2 assms(1) show "\<exists>v'. map_of d3 k = Some v' \<and> R v v'" by blast
qed

lemma dict_le_setdefault: "(\<And>v. R v v) \<Longrightarrow> dict_le R d (setdefault d k x)"
  by (simp add: dict_le_def map_of_setdefault)

lemma dict_le_at_key:
  assumes "\<And>v. R v v" and "at_key d k f = Inr d'" and "\<And>v v'. f v = Inr v' \<Longrightarrow> R v v'"
  shows "dict_le R d d'"
  using assms
  by (auto simp: dict_le_def at_key_def update_conv' split: option.splits sum.splits)

lemma le3: "dict_le (\<lambda>items items'. True) (d :: pystr list dict) d"
  by (simp add: dict_le_def)

lemma le2: "dict_le (dict_le (\<lambda>items items'. True)) (d :: pystr list dict dict) d"
  by (rule dict_le_refl) (rule le3)

lemma le1: "index_le idx idx"
  unfolding index_le_def by (rule dict_le_refl) (rule le2)

lemma setdefault_le3: "dict_le (\<lambda>items items'. True) (d :: pystr list dict) (setdefault d k x)"
  by (rule dict_le_setdefault) simp

lemma setdefault_le2:
  "dict_le (dict_le (\<lambda>items items'. True)) (d :: pystr list dict dict) (setdefault d k x)"
  by (rule dict_le_setdefault) (rule le3)

lemma setdefault_le1: "index_le idx (setdefault idx k x)"
  unfolding index_le_def by (rule dict_le_setdefault) (rule le2)

lemma at_key_le3:
  "at_key (d :: pystr list dict) k f = Inr d' \<Longrightarrow> dict_le (\<lambda>items items'. True) d d'"
  by (rule dict_le_at_key) auto

lemma at_key_le2:
  assumes "at_key (d :: pystr list dict dict) k f = Inr d'"
    and "\<And>v v'. f v = Inr v' \<Longrightarrow> dict_le (\<lambda>items items'. True) v v'"
  shows "dict_le (dict_le (\<lambda>items items'. True)) d d'"
  using le3 assms by (rule dict_le_at_key)

lemma at_key_le1:
  assumes "at_key (idx :: index) k f = Inr idx'"
    and "\<And>v v'. f v = Inr v' \<Longrightarrow> dict_le (dict_le (\<lambda>items items'. True)) v v'"
  shows "index_le idx idx'"
  unfolding index_le_def using le2 assms by (rule dict_le_at_key)

lemma index_le_trans: "index_le a b \<Longrightarrow> index_le b c \<Longrightarrow> index_le a c"
  unfolding index_le_def
  by (erule dict_le_trans [rotated], assumption, erule dict_le_trans [rotated], assumption,
      erule dict_le_trans [rotated], assumption, simp)

lemma index_le_step: "parse_line st raw = Inr st' \<Longrightarrow> index_le (result st) (result st')"
proof (cases raw rule: line_cases)
  case phase
  assume "parse_line st raw = Inr st'"
  then show ?thesis unfolding parse_line_phase [OF phase] by (auto simp: setdefault_le1)
next
  case cls
  assume "parse_line st raw = Inr st'"
  then show ?thesis unfolding parse_line_class [OF cls]
    by (auto split: if_splits sum.splits simp: le1 setdefault_le2 elim!: at_key_le1)
next
  case cat
  assume "parse_line st raw = Inr st'"
  then show ?thesis unfolding parse_line_category [OF cat]
    by (auto split: if_splits sum.splits simp: le1 setdefault_le3 elim!: at_key_le1 at_key_le2)
next
  case bullet
  assume "parse_line st raw = Inr st'"
  then show ?thesis unfolding parse_line_bullet [OF bullet]
    by (auto split: if_splits sum.splits option.splits simp: le1
          elim!: at_key_le1 at_key_le2 at_key_le3)
next
  case other
  assume "parse_line st raw = Inr st'"
  then show ?thesis using other by (simp add: parse_line_other le1)
qed

lemma index_le_parse_lines:
  "parse_lines st ls = Inr st' \<Longrightarrow> index_le (result st) (result st')"
proof (induction ls arbitrary: st)
  case Nil then show ?case by (simp add: le1)
next
  case (Cons l ls)
  then obtain st1 where "parse_line st l = Inr st1" "parse_lines st1 ls = Inr st'"
    by (auto split: sum.splits)
  with Cons.IH [of st1] show ?case by (blast intro: index_le_trans index_le_step)
qed

lemma index_le_lookup1: "index_le a b \<Longrightarrow> map_of a p \<noteq> None \<Longrightarrow> map_of b p \<noteq> None"
  by (fastforce simp: index_le_def dict_le_def)

lemma index_le_lookup2: "index_le a b \<Longrightarrow> lookup2 a p c \<noteq> None \<Longrightarrow> lookup2 b p c \<noteq> None"
  by (fastforce simp: index_le_def dict_le_def lookup2_def split: option.splits)

lemma index_le_lookup3: "index_le a b \<Longrightarrow> lookup3 a p c k \<noteq> None \<Longrightarrow> lookup3 b p c k \<noteq> None"
  by (fastforce simp: index_le_def dict_le_def lookup2_def lookup3_def split: option.splits)

lemma registered_phase:
  assumes "phase_heading raw" "parse_line st raw = Inr st'"
  shows "map_of (result st') (phase_text (strip raw)) \<noteq> None"
  using assms(2) unfolding parse_line_on_phase [OF assms(1)] phase_branch_def
  by (auto simp: map_of_setdefault_ex)

lemma registered_class:
  assumes "class_heading raw" "parse_line st raw = Inr st'" "phase st = Some p" "p \<noteq> []"
  shows "lookup2 (result st') p (class_text (strip raw)) \<noteq> None"
  using assms(2-) unfolding parse_line_on_class [OF assms(1)] class_branch_def
  by (auto simp: truthy_def at_key_def lookup2_def update_conv' map_of_setdefault_ex
        split: sum.splits option.splits if_splits)

lemma registered_category:
  assumes "category_line raw" "parse_line st raw = Inr st'" "phase st = Some p" "p \<noteq> []"
    "terraria_class st = Some c" "c \<noteq> []"
  shows "lookup3 (result st') p c (strip (lstrip_chars (py '';'') (strip raw))) \<noteq> None"
  using assms(2-) unfolding parse_line_category [OF assms(1)]
  by (auto simp: truthy_def at_key_def lookup2_def lookup3_def update_conv' map_of_setdefault_ex
        split: sum.splits option.splits if_splits)

lemma scan_through:
  assumes "parse_lines initial pre = Inr st" and "splitlines text = pre @ raw # rest"
  obtains st' fin where "parse_line st raw = Inr st'" "parse_lines st' rest = Inr fin"
    "parse_guide text = Inr (result fin)" "index_le (result st') (result fin)"
proof -
  have ok: "cursor_ok st" using assms(1) by (rule reachable_ok)
  from step_ok [OF ok, of raw] obtain st' where 1: "parse_line st raw = Inr st'" "cursor_ok st'"
    by blast
  from parse_lines_ok [OF 1(2), of rest] obtain fin where 2: "parse_lines st' rest = Inr fin"
    by blast
  have "parse_lines initial (pre @ raw # rest) = Inr fin"
    using assms(1) 1 2 by (simp add: parse_lines_append)
  then have 3: "parse_guide text = Inr (result fin)" by (simp add: parse_guide_def assms(2))
  from 1 2 3 index_le_parse_lines [OF 2] that show ?thesis by blast
qed

section \<open>Runs of bullet lines\<close>

lemma bullet_step:
  assumes "bullet_line raw" "phase st = Some p" "p \<noteq> []" "terraria_class st = Some c" "c \<noteq> []"
    "category st = Some k" "k \<noteq> []" "lookup3 (result st) p c k = Some items"
  shows "\<exists>st'. parse_line st raw = Inr st' \<and> phase st' = phase st
           \<and> terraria_class st' = terraria_class st \<and> category st' = category st
           \<and> lookup3 (result st') p c k = Some (items @ recorded raw)"
proof -
  from assms(8) obtain classes cats where m: "map_of (result st) p = Some classes"
    "map_of classes c = Some cats" "map_of cats k = Some items"
    by (auto simp: lookup3_def lookup2_def split: option.splits)
  show ?thesis unfolding parse_line_bullet [OF assms(1)] using assms(2-7) m
    by (simp add: truthy_def at_key_Some recorded_def lookup3_def lookup2_def update_conv'
          split: option.splits)
qed

lemma bullets_run:
  assumes "phase st = Some p" "p \<noteq> []" "terraria_class st = Some c" "c \<noteq> []"
    "category st = Some k" "k \<noteq> []" "lookup3 (result st) p c k = Some items"
    "list_all bullet_line ls"
  shows "\<exists>st'. parse_lines st ls = Inr st' \<and> phase st' = phase st
           \<and> terraria_class st' = terraria_class st \<and> category st' = category st
           \<and> lookup3 (result st') p c k = Some (items @ item_names ls)"
  using assms
proof (induction ls arbitrary: st items)
  case Nil
  then show ?case by (simp add: item_names_def)
next
  case (Cons l ls)
  from Cons.prems have b: "bullet_line l" and bs: "list_all bullet_line ls" by simp_all
  from bullet_step [OF b Cons.prems(1-7)] obtain st1 where
    1: "parse_line st l = Inr st1" "phase st1 = phase st" "terraria_class st1 = terraria_class st"
       "category st1 = category st" "lookup3 (result st1) p c k = Some (items @ recorded l)"
    by blast
  have "\<exists>st'. parse_lines st1 ls = Inr st' \<and> phase st' = phase st1
           \<and> terraria_class st' = terraria_class st1 \<and> category st' = category st1
           \<and> lookup3 (result st') p c k = Some ((items @ recorded l) @ item_names ls)"
    using Cons.prems(1-6) 1 bs by (intro Cons.IH) simp_all
  then show ?case using 1 by (auto simp: item_names_def)
qed

lemma item_names_all:
  "list_all (\<lambda>l. \<exists>n. extract_item_name (strip l) = Some n \<and> n \<noteq> []) ls \<Longrightarrow>
     item_names ls = map (\<lambda>l. the (extract_item_name (strip l))) ls"
  by (induction ls) (auto simp: item_names_def recorded_def)

section \<open>Lines without a usable context\<close>

lemma agree_step:
  assumes "agree s t"
  shows "(\<exists>e. parse_line s l = Inl e \<and> parse_line t l = Inl e)
       \<or> (\<exists>s' t'. parse_line s l = Inr s' \<and> parse_line t l = Inr t' \<and> agree s' t')"
proof (cases l rule: line_cases)
  case phase
  show ?thesis unfolding parse_line_phase [OF phase] using assms by (simp add: agree_def)
next
  case cls
  show ?thesis unfolding parse_line_class [OF cls] using assms
    by (auto simp: agree_def split: sum.splits)
next
  case cat
  show ?thesis unfolding parse_line_category [OF cat] using assms
    by (auto simp: agree_def split: sum.splits)
next
  case bullet
  show ?thesis unfolding parse_line_bullet [OF bullet] using assms
    by (auto simp: agree_def split: sum.splits option.splits)
next
  case other
  then show ?thesis using assms by (simp add: parse_line_other)
qed

lemma agree_run:
  "agree s t \<Longrightarrow>
     (case parse_lines s ls of Inl e \<Rightarrow> Inl e | Inr st \<Rightarrow> Inr (result st))
   = (case parse_lines t ls of Inl e \<Rightarrow> Inl e | Inr st \<Rightarrow> Inr (result st))"
proof (induction ls arbitrary: s t)
  case Nil then show ?case by (simp add: agree_def)
next
  case (Cons l ls)
  from agree_step [OF Cons.prems, of l] show ?case
    by (auto dest: Cons.IH)
qed

lemma orphan_step_phase:
  assumes "\<not> truthy (phase st)" "\<not> phase_heading l"
  shows "\<exists>st'. parse_line st l = Inr st' \<and> result st' = result st \<and> phase st' = phase st"
proof (cases l rule: line_cases)
  case phase then show ?thesis using assms by simp
next
  case cls show ?thesis unfolding parse_line_class [OF cls] using assms by simp
next
  case cat show ?thesis unfolding parse_line_category [OF cat] using assms by simp
next
  case bullet show ?thesis unfolding parse_line_bullet [OF bullet] using assms by simp
next
  case other then show ?thesis by (simp add: parse_line_other)
qed

lemma orphan_step_class:
  assumes "\<not> truthy (terraria_class st)" "\<not> phase_heading l" "\<not> class_heading l"
  shows "\<exists>st'. parse_line st l = Inr st' \<and> result st' = result st \<and> phase st' = phase st
            \<and> terraria_class st' = terraria_class st"
proof (cases l rule: line_cases)
  case phase then show ?thesis using assms by simp
next
  case cls then show ?thesis using assms by simp
next
  case cat show ?thesis unfolding parse_line_category [OF cat] using assms by simp
next
  case bullet show ?thesis unfolding parse_line_bullet [OF bullet] using assms by simp
next
  case other then show ?thesis by (simp add: parse_line_other)
qed

lemma orphan_run_phase:
  "\<not> truthy (phase st) \<Longrightarrow> list_all (\<lambda>l. \<not> phase_heading l) ls \<Longrightarrow>
     \<exists>st'. parse_lines st ls = Inr st' \<and> result st' = result st \<and> phase st' = phase st"
proof (induction ls arbitrary: st)
  case Nil then show ?case by simp
next
  case (Cons l ls)
  from Cons.prems orphan_step_phase [of st l] obtain st1 where
    1: "parse_line st l = Inr st1" "result st1 = result st" "phase st1 = phase st" by auto
  with Cons.prems Cons.IH [of st1] show ?case by auto
qed

lemma orphan_run_class:
  "\<not> truthy (terraria_class st) \<Longrightarrow>
   list_all (\<lambda>l. \<not> phase_heading l \<and> \<not> class_heading l) ls \<Longrightarrow>
     \<exists>st'. parse_lines st ls = Inr st' \<and> result st' = result st \<and> phase st' = phase st
            \<and> terraria_class st' = terraria_class st"
proof (induction ls arbitrary: st)
  case Nil then show ?case by simp
next
  case (Cons l ls)
  from Cons.prems orphan_step_class [of st l] obtain st1 where
    1: "parse_line st l = Inr st1" "result st1 = result st" "phase st1 = phase st"
       "terraria_class st1 = terraria_class st" by auto
  with Cons.prems Cons.IH [of st1] show ?case by auto
qed

section \<open>The cache while it holds no index\<close>

lemma fetch_when_empty:
  "GuideCache s = [] \<Longrightarrow> fetches (snd (get_guide_data now net s)) = fetches s + 1"
  by (simp add: get_guide_data_def fetch_wikitext_def split: sum.splits)

lemma stays_empty:
  assumes "GuideCache s = []" and "\<forall>text. net = Inr text \<longrightarrow> parse_guide text = Inr []"
  shows "GuideCache (snd (get_guide_data now net s)) = []"
  using assms by (cases net) (auto simp: get_guide_data_def fetch_wikitext_def split: sum.splits)

lemma calls_empty:
  assumes "GuideCache s = []"
    and "list_all (\<lambda>(now, net). \<forall>text. net = Inr text \<longrightarrow> parse_guide text = Inr []) cs"
  shows "fetches (calls s cs) = fetches s + length cs \<and> GuideCache (calls s cs) = []"
  using assms
proof (induction cs arbitrary: s)
  case Nil then show ?case by simp
next
  case (Cons a cs)
  obtain now net where a: "a = (now, net)" by (cases a)
  with Cons.prems have e: "GuideCache (snd (get_guide_data now net s)) = []"
    by (auto intro: stays_empty)
  then have "fetches (calls (snd (get_guide_data now net s)) cs)
      = fetches (snd (get_guide_data now net s)) + length cs
      \<and> GuideCache (calls (snd (get_guide_data now net s)) cs) = []"
    using Cons.prems by (intro Cons.IH) simp_all
  then show ?case using fetch_when_empty [OF Cons.prems(1), of now net] a by simp
qed

section \<open>C1: parse_guide is total\<close>

text \<open>
  C1. For every input string, \<open>parse_guide\<close> returns an index and raises nothing: none of
  the subscripts \<open>result[phase]\<close>, \<open>result[phase][terraria_class]\<close> and
  \<open>result[phase][terraria_class][category]\<close> meets an absent key (no \<open>KeyError\<close>), and
  the index returned is a valid three-level dictionary, possibly empty. Termination is
  part of the definitions: every function of the model is total.
\<close>

theorem parse_guide_total: "\<exists>idx. parse_guide S = Inr idx \<and> valid_index idx"
proof -
  from parse_lines_ok [OF cursor_ok_initial, of "splitlines S"]
  obtain st where st: "parse_lines initial (splitlines S) = Inr st" by blast
  from valid_parse_lines [OF valid_initial st] have "valid_index (result st)" .
  with st show ?thesis by (simp add: parse_guide_def)
qed

section \<open>C2, C3: the stale entry and the freshness boundary\<close>

text \<open>
  C2, as the code has it. When the entry is stale and the fetch of the refresh fails,
  \<open>get_guide_data\<close> has no handler: the failure reaches the caller, and the two globals
  keep the old entry, which this call does not return.
\<close>

theorem stale_failure_propagates:
  assumes "GuideCache s \<noteq> []" and "GuideFetchedAt s = Some t" and "CACHE_TTL \<le> now - t"
  shows "get_guide_data now (Inl e) s = (Inl e, s\<lparr>fetches := fetches s + 1\<rparr>)"
  using assms by (simp add: get_guide_data_def fetch_wikitext_def)

theorem stale_failure_propagates_witness:
  "GuideCache \<lparr>GuideCache = [(py ''P'', [])], GuideFetchedAt = Some 100, fetches = 1\<rparr> \<noteq> []
   \<and> CACHE_TTL \<le> 3700 - 100
   \<and> get_guide_data 3700 (Inl FetchUnavailable)
        \<lparr>GuideCache = [(py ''P'', [])], GuideFetchedAt = Some 100, fetches = 1\<rparr>
       = (Inl FetchUnavailable,
          \<lparr>GuideCache = [(py ''P'', [])], GuideFetchedAt = Some 100, fetches = 2\<rparr>)"
  using stale_failure_propagates
    [of "\<lparr>GuideCache = [(py ''P'', [])], GuideFetchedAt = Some 100, fetches = 1\<rparr>"
        100 3700 FetchUnavailable]
  by (simp add: CACHE_TTL_def)

text \<open>
  C2 as stated fails: the entry stored at time 100 is stale at time 3700, the fetch
  fails, and the caller gets the failure, not the index of the entry.
\<close>

theorem stale_fallback_counterexample:
  "GuideCache \<lparr>GuideCache = [(py ''P'', [])], GuideFetchedAt = Some 100, fetches = 1\<rparr> \<noteq> []
   \<and> CACHE_TTL \<le> 3700 - 100
   \<and> fst (get_guide_data 3700 (Inl FetchUnavailable)
            \<lparr>GuideCache = [(py ''P'', [])], GuideFetchedAt = Some 100, fetches = 1\<rparr>)
       = Inl FetchUnavailable
   \<and> fst (get_guide_data 3700 (Inl FetchUnavailable)
            \<lparr>GuideCache = [(py ''P'', [])], GuideFetchedAt = Some 100, fetches = 1\<rparr>)
       \<noteq> Inr [(py ''P'', [])]"
  by (simp add: get_guide_data_def fetch_wikitext_def CACHE_TTL_def py_def)

text \<open>
  C3, as the code has it. \<open>CACHE_TTL\<close> is 3600. When the cached index is not empty and
  the time \<open>t\<close> of the last refresh is not 0, a call at \<open>t + 3599\<close> returns the cached
  index and fetches nothing, and a call at \<open>t + 3601\<close> makes exactly one fetch.
\<close>

theorem freshness_boundary:
  assumes "GuideCache s \<noteq> []" and "GuideFetchedAt s = Some t" and "t \<noteq> 0"
  shows "CACHE_TTL = 3600
       \<and> get_guide_data (t + 3599) net s = (Inr (GuideCache s), s)
       \<and> fetches (snd (get_guide_data (t + 3601) net s)) = fetches s + 1"
  using assms
  by (simp add: get_guide_data_def fetch_wikitext_def CACHE_TTL_def split: sum.splits)

theorem freshness_boundary_witness:
  "GuideCache \<lparr>GuideCache = [(py ''P'', [])], GuideFetchedAt = Some 100, fetches = 1\<rparr> \<noteq> []
   \<and> get_guide_data 3699 (Inl FetchUnavailable)
        \<lparr>GuideCache = [(py ''P'', [])], GuideFetchedAt = Some 100, fetches = 1\<rparr>
       = (Inr [(py ''P'', [])],
          \<lparr>GuideCache = [(py ''P'', [])], GuideFetchedAt = Some 100, fetches = 1\<rparr>)
   \<and> fetches (snd (get_guide_data 3701 (Inl FetchUnavailable)
        \<lparr>GuideCache = [(py ''P'', [])], GuideFetchedAt = Some 100, fetches = 1\<rparr>)) = 2"
  using freshness_boundary
    [of "\<lparr>GuideCache = [(py ''P'', [])], GuideFetchedAt = Some 100, fetches = 1\<rparr>"
        100 "Inl FetchUnavailable"]
  by simp

text \<open>
  C3 as stated fails when the last successful refresh stored an empty index: the
  refresh at time 100 of a page with no line succeeds and stores the empty index, and
  the call at \<open>100 + 3599\<close> fetches again.
\<close>

theorem freshness_boundary_counterexample:
  "get_guide_data 100 (Inr []) empty_provider
     = (Inr [], \<lparr>GuideCache = [], GuideFetchedAt = Some 100, fetches = 1\<rparr>)
   \<and> fetches (snd (get_guide_data (100 + 3599) (Inr [])
        \<lparr>GuideCache = [], GuideFetchedAt = Some 100, fetches = 1\<rparr>)) = 2"
  by (simp add: get_guide_data_def fetch_wikitext_def empty_provider_def parse_guide_def
        splitlines_def initial_def)

section \<open>C4: empty heading texts\<close>

text \<open>
  C4, as the code has it. Registration is not skipped for an empty text: a phase line
  whose text is empty registers the empty string as a phase; a class line whose text
  is empty registers the empty string as a class of the current phase when that phase
  is not empty; a category line whose text is empty registers the empty string as a
  category of the current phase and class when neither is empty. The key is in the
  index that \<open>parse_guide\<close> returns, whatever lines follow.
\<close>

theorem empty_text_is_registered:
  assumes "parse_lines initial pre = Inr st" and "splitlines text = pre @ raw # rest"
  shows "(phase_heading raw \<and> phase_text (strip raw) = [] \<longrightarrow>
            (\<exists>idx. parse_guide text = Inr idx \<and> map_of idx [] \<noteq> None))
       \<and> (class_heading raw \<and> class_text (strip raw) = [] \<and> phase st = Some p \<and> p \<noteq> [] \<longrightarrow>
            (\<exists>idx. parse_guide text = Inr idx \<and> lookup2 idx p [] \<noteq> None))
       \<and> (category_line raw \<and> category_text (strip raw) = [] \<and> phase st = Some p \<and> p \<noteq> []
            \<and> terraria_class st = Some c \<and> c \<noteq> [] \<longrightarrow>
            (\<exists>idx. parse_guide text = Inr idx \<and> lookup3 idx p c [] \<noteq> None))"
proof -
  from assms obtain st' and fin :: parse_state where s: "parse_line st raw = Inr st'"
    "parse_guide text = Inr (result fin)" "index_le (result st') (result fin)"
    by (rule scan_through)
  have a: "phase_heading raw \<Longrightarrow> phase_text (strip raw) = [] \<Longrightarrow> map_of (result fin) [] \<noteq> None"
    using registered_phase [OF _ s(1)] index_le_lookup1 [OF s(3)] by metis
  have b: "class_heading raw \<Longrightarrow> class_text (strip raw) = [] \<Longrightarrow> phase st = Some p \<Longrightarrow> p \<noteq> []
      \<Longrightarrow> lookup2 (result fin) p [] \<noteq> None"
    using registered_class [OF _ s(1)] index_le_lookup2 [OF s(3)] by metis
  have c: "category_line raw \<Longrightarrow> category_text (strip raw) = [] \<Longrightarrow> phase st = Some p \<Longrightarrow> p \<noteq> []
      \<Longrightarrow> terraria_class st = Some c \<Longrightarrow> c \<noteq> [] \<Longrightarrow> lookup3 (result fin) p c [] \<noteq> None"
    using registered_category [OF _ s(1)] index_le_lookup3 [OF s(3)]
    unfolding category_text_def by metis
  from a b c s(2) show ?thesis by blast
qed

text \<open>C4, as the code has it, on the pages \<open>==\<close>, \<open>== P ==\<close> + \<open>===\<close> and \<open>== P ==\<close> + \<open>=== C ===\<close> + \<open>;\<close>.\<close>

theorem empty_text_is_registered_witness:
  "parse_lines initial [] = Inr initial
   \<and> splitlines (py ''=='') = [] @ py ''=='' # []
   \<and> phase_heading (py ''=='') \<and> phase_text (strip (py ''=='')) = []
   \<and> (\<exists>idx. parse_guide (py ''=='') = Inr idx \<and> map_of idx [] \<noteq> None)
   \<and> parse_lines initial [py ''== P ==''] =
        Inr \<lparr>result = [(py ''P'', [])], phase = Some (py ''P''), terraria_class = None,
             category = None\<rparr>
   \<and> splitlines (py ''== P =='' @ [10] @ py ''==='') = [py ''== P ==''] @ py ''==='' # []
   \<and> class_heading (py ''==='') \<and> class_text (strip (py ''==='')) = []
   \<and> (\<exists>idx. parse_guide (py ''== P =='' @ [10] @ py ''==='') = Inr idx
          \<and> lookup2 idx (py ''P'') [] \<noteq> None)
   \<and> parse_lines initial [py ''== P =='', py ''=== C ===''] =
        Inr \<lparr>result = [(py ''P'', [(py ''C'', [])])], phase = Some (py ''P''),
             terraria_class = Some (py ''C''), category = None\<rparr>
   \<and> splitlines (py ''== P =='' @ [10] @ py ''=== C ==='' @ [10] @ py '';'')
       = [py ''== P =='', py ''=== C ===''] @ py '';'' # []
   \<and> category_line (py '';'') \<and> category_text (strip (py '';'')) = []
   \<and> (\<exists>idx. parse_guide (py ''== P =='' @ [10] @ py ''=== C ==='' @ [10] @ py '';'') = Inr idx
          \<and> lookup3 idx (py ''P'') (py ''C'') [] \<noteq> None)"
proof -
  have a: "parse_lines initial [] = Inr initial"
    "splitlines (py ''=='') = [] @ py ''=='' # []"
    "phase_heading (py ''=='')" "phase_text (strip (py ''=='')) = []"
    by (simp_all add: ev phase_heading_def phase_text_def)
  have b: "parse_lines initial [py ''== P ==''] =
        Inr \<lparr>result = [(py ''P'', [])], phase = Some (py ''P''), terraria_class = None,
             category = None\<rparr>"
    "splitlines (py ''== P =='' @ [10] @ py ''==='') = [py ''== P ==''] @ py ''==='' # []"
    "class_heading (py ''==='')" "class_text (strip (py ''==='')) = []"
    by (simp_all add: ev class_heading_def class_text_def)
  have c: "parse_lines initial [py ''== P =='', py ''=== C ===''] =
        Inr \<lparr>result = [(py ''P'', [(py ''C'', [])])], phase = Some (py ''P''),
             terraria_class = Some (py ''C''), category = None\<rparr>"
    "splitlines (py ''== P =='' @ [10] @ py ''=== C ==='' @ [10] @ py '';'')
       = [py ''== P =='', py ''=== C ===''] @ py '';'' # []"
    "category_line (py '';'')" "category_text (strip (py '';'')) = []"
    by (simp_all add: ev category_line_def category_text_def)
  have p: "py ''P'' \<noteq> []" "py ''C'' \<noteq> []" by (simp_all add: py_def)
  from empty_text_is_registered [OF a(1,2)] a(3,4)
  have 1: "\<exists>idx. parse_guide (py ''=='') = Inr idx \<and> map_of idx [] \<noteq> None" by blast
  from empty_text_is_registered [OF b(1,2), of "py ''P''"] b(3,4) p
  have 2: "\<exists>idx. parse_guide (py ''== P =='' @ [10] @ py ''==='') = Inr idx
          \<and> lookup2 idx (py ''P'') [] \<noteq> None" by simp
  from empty_text_is_registered [OF c(1,2), of "py ''P''" "py ''C''"] c(3,4) p
  have 3: "\<exists>idx. parse_guide (py ''== P =='' @ [10] @ py ''=== C ==='' @ [10] @ py '';'') = Inr idx
          \<and> lookup3 idx (py ''P'') (py ''C'') [] \<noteq> None" by simp
  from a b c 1 2 3 show ?thesis by blast
qed

text \<open>
  C4 as stated fails: the line \<open>==\<close> registers the phase \<open>''\<close>, the line \<open>===\<close> the class
  \<open>''\<close> and the line \<open>;\<close> the category \<open>''\<close>.
\<close>

theorem empty_text_counterexample:
  "parse_guide (py ''=='') = Inr [([], [])]
   \<and> parse_guide (py ''== P =='' @ [10] @ py ''==='') = Inr [(py ''P'', [([], [])])]
   \<and> parse_guide (py ''== P =='' @ [10] @ py ''=== C ==='' @ [10] @ py '';'')
       = Inr [(py ''P'', [(py ''C'', [([], [])])])]"
  by (simp add: ev)

section \<open>C5: orphan lines\<close>

text \<open>
  C5. Lines met while no phase is active (class headings, category markers, bullets:
  anything but a phase heading), and category markers and bullets met while no class
  is active, contribute nothing: a page with such lines \<open>mid\<close> between \<open>pre\<close> and \<open>rest\<close>
  yields the index of the page without them.
\<close>

theorem orphan_lines_contribute_nothing:
  assumes "splitlines text = pre @ mid @ rest" and "splitlines text' = pre @ rest"
    and "parse_lines initial pre = Inr st"
    and "(\<not> truthy (phase st) \<and> list_all (\<lambda>l. \<not> phase_heading l) mid)
       \<or> (\<not> truthy (terraria_class st)
          \<and> list_all (\<lambda>l. \<not> phase_heading l \<and> \<not> class_heading l) mid)"
  shows "parse_guide text = parse_guide text'"
proof -
  from assms(4) obtain st' where m: "parse_lines st mid = Inr st'" and a: "agree st' st"
  proof
    assume h: "\<not> truthy (phase st) \<and> list_all (\<lambda>l. \<not> phase_heading l) mid"
    with orphan_run_phase [of st mid] obtain st' where "parse_lines st mid = Inr st'"
      "result st' = result st" "phase st' = phase st" by auto
    with h that show ?thesis by (auto simp: agree_def)
  next
    assume h: "\<not> truthy (terraria_class st)
          \<and> list_all (\<lambda>l. \<not> phase_heading l \<and> \<not> class_heading l) mid"
    with orphan_run_class [of st mid] obtain st' where "parse_lines st mid = Inr st'"
      "result st' = result st" "phase st' = phase st" "terraria_class st' = terraria_class st"
      by auto
    with h that show ?thesis by (auto simp: agree_def)
  qed
  have "parse_guide text
      = (case parse_lines st' rest of Inl e \<Rightarrow> Inl e | Inr fin \<Rightarrow> Inr (result fin))"
    by (simp add: parse_guide_def assms(1,3) m parse_lines_append)
  also have "\<dots> = (case parse_lines st rest of Inl e \<Rightarrow> Inl e | Inr fin \<Rightarrow> Inr (result fin))"
    using a by (rule agree_run)
  also have "\<dots> = parse_guide text'"
    by (simp add: parse_guide_def assms(2,3) parse_lines_append)
  finally show ?thesis .
qed

text \<open>
  C5 on two pages: a class, a category and a bullet before the first phase heading; a
  category and a bullet between a phase heading and the first class heading.
\<close>

theorem orphan_lines_contribute_nothing_witness:
  "splitlines (py ''=== C ==='' @ [10] @ py '';W'' @ [10] @ py ''* [[Bow]]'' @ [10] @ py ''== P =='')
     = [] @ [py ''=== C ==='', py '';W'', py ''* [[Bow]]''] @ [py ''== P =='']
   \<and> splitlines (py ''== P =='') = [] @ [py ''== P =='']
   \<and> parse_lines initial [] = Inr initial
   \<and> \<not> truthy (phase initial)
   \<and> list_all (\<lambda>l. \<not> phase_heading l) [py ''=== C ==='', py '';W'', py ''* [[Bow]]'']
   \<and> parse_guide (py ''=== C ==='' @ [10] @ py '';W'' @ [10] @ py ''* [[Bow]]'' @ [10] @ py ''== P =='')
       = parse_guide (py ''== P =='')
   \<and> parse_guide (py ''== P =='') = Inr [(py ''P'', [])]
   \<and> splitlines (py ''== P =='' @ [10] @ py '';W'' @ [10] @ py ''* [[Bow]]'' @ [10] @ py ''=== C ==='')
     = [py ''== P ==''] @ [py '';W'', py ''* [[Bow]]''] @ [py ''=== C ==='']
   \<and> splitlines (py ''== P =='' @ [10] @ py ''=== C ==='') = [py ''== P ==''] @ [py ''=== C ==='']
   \<and> parse_lines initial [py ''== P ==''] =
        Inr \<lparr>result = [(py ''P'', [])], phase = Some (py ''P''), terraria_class = None,
             category = None\<rparr>
   \<and> \<not> truthy (terraria_class \<lparr>result = [(py ''P'', [])], phase = Some (py ''P''),
                   terraria_class = None, category = None\<rparr>)
   \<and> list_all (\<lambda>l. \<not> phase_heading l \<and> \<not> class_heading l) [py '';W'', py ''* [[Bow]]'']
   \<and> parse_guide (py ''== P =='' @ [10] @ py '';W'' @ [10] @ py ''* [[Bow]]'' @ [10] @ py ''=== C ==='')
       = parse_guide (py ''== P =='' @ [10] @ py ''=== C ==='')
   \<and> parse_guide (py ''== P =='' @ [10] @ py ''=== C ==='') = Inr [(py ''P'', [(py ''C'', [])])]"
proof -
  have a: "splitlines (py ''=== C ==='' @ [10] @ py '';W'' @ [10] @ py ''* [[Bow]]'' @ [10] @ py ''== P =='')
     = [] @ [py ''=== C ==='', py '';W'', py ''* [[Bow]]''] @ [py ''== P =='']"
    "splitlines (py ''== P =='') = [] @ [py ''== P =='']"
    "parse_lines initial [] = Inr initial"
    by (simp_all add: ev)
  have a4: "\<not> truthy (phase initial)"
    "list_all (\<lambda>l. \<not> phase_heading l) [py ''=== C ==='', py '';W'', py ''* [[Bow]]'']"
    by (simp_all add: ev phase_heading_def)
  have a5: "parse_guide (py ''== P =='') = Inr [(py ''P'', [])]" by (simp add: ev)
  have b: "splitlines (py ''== P =='' @ [10] @ py '';W'' @ [10] @ py ''* [[Bow]]'' @ [10] @ py ''=== C ==='')
     = [py ''== P ==''] @ [py '';W'', py ''* [[Bow]]''] @ [py ''=== C ===''] "
    "splitlines (py ''== P =='' @ [10] @ py ''=== C ==='') = [py ''== P ==''] @ [py ''=== C ===''] "
    "parse_lines initial [py ''== P ==''] =
        Inr \<lparr>result = [(py ''P'', [])], phase = Some (py ''P''), terraria_class = None,
             category = None\<rparr>"
    by (simp_all add: ev)
  have b4: "\<not> truthy (terraria_class \<lparr>result = [(py ''P'', [])], phase = Some (py ''P''),
                   terraria_class = None, category = None\<rparr>)"
    "list_all (\<lambda>l. \<not> phase_heading l \<and> \<not> class_heading l) [py '';W'', py ''* [[Bow]]'']"
    by (simp_all add: ev phase_heading_def class_heading_def)
  have b5: "parse_guide (py ''== P =='' @ [10] @ py ''=== C ==='') = Inr [(py ''P'', [(py ''C'', [])])]"
    by (simp add: ev)
  from orphan_lines_contribute_nothing [OF a] a4
  have 1: "parse_guide (py ''=== C ==='' @ [10] @ py '';W'' @ [10] @ py ''* [[Bow]]'' @ [10] @ py ''== P =='')
       = parse_guide (py ''== P =='')" by blast
  from orphan_lines_contribute_nothing [OF b] b4
  have 2: "parse_guide (py ''== P =='' @ [10] @ py '';W'' @ [10] @ py ''* [[Bow]]'' @ [10] @ py ''=== C ==='')
       = parse_guide (py ''== P =='' @ [10] @ py ''=== C ==='')" by blast
  from a a4 a5 b b4 b5 1 2 show ?thesis by blast
qed

section \<open>C6: heading depth\<close>

text \<open>
  C6. Whatever whitespace surrounds it, a line whose stripped text begins with \<open>===\<close>
  takes the class branch and not the phase branch, and a line whose stripped text
  begins with \<open>==\<close> but not with \<open>===\<close> takes the phase branch and not the class branch.
\<close>

theorem heading_depth_precedence:
  assumes "list_all isspace ws1" and "list_all isspace ws2"
  shows "(startswith (strip l) (py ''==='') \<longrightarrow>
            parse_line st (ws1 @ l @ ws2) = class_branch st (strip l)
            \<and> parse_line st (ws1 @ l @ ws2) \<noteq> phase_branch st (strip l))
       \<and> (startswith (strip l) (py ''=='') \<and> \<not> startswith (strip l) (py ''==='') \<longrightarrow>
            parse_line st (ws1 @ l @ ws2) = phase_branch st (strip l)
            \<and> parse_line st (ws1 @ l @ ws2) \<noteq> class_branch st (strip l))"
proof -
  have s: "strip (ws1 @ l @ ws2) = strip l" using assms by (rule strip_surround)
  have c: "startswith (strip l) (py ''==='') \<Longrightarrow>
      parse_line st (ws1 @ l @ ws2) = class_branch st (strip l)"
    using parse_line_on_class [of "ws1 @ l @ ws2" st] by (simp add: class_heading_def s)
  have p: "startswith (strip l) (py ''=='') \<Longrightarrow> \<not> startswith (strip l) (py ''==='') \<Longrightarrow>
      parse_line st (ws1 @ l @ ws2) = phase_branch st (strip l)"
    using parse_line_on_phase [of "ws1 @ l @ ws2" st] by (simp add: phase_heading_def s)
  show ?thesis using c p branches_differ [of st "strip l" "strip l"]
    by (auto simp del: append_assoc)
qed

text \<open>C6 on \<open>=== Ranged ===\<close> and \<open>== Hardmode ==\<close>, each between a space, a tab and a space.\<close>

theorem heading_depth_precedence_witness:
  "list_all isspace [32, 9] \<and> list_all isspace [32]
   \<and> startswith (strip (py ''=== Ranged ==='')) (py ''==='')
   \<and> parse_line initial ([32, 9] @ py ''=== Ranged ==='' @ [32])
       = class_branch initial (strip (py ''=== Ranged ===''))
   \<and> parse_line initial ([32, 9] @ py ''=== Ranged ==='' @ [32])
       \<noteq> phase_branch initial (strip (py ''=== Ranged ===''))
   \<and> startswith (strip (py ''== Hardmode =='')) (py ''=='')
   \<and> \<not> startswith (strip (py ''== Hardmode =='')) (py ''==='')
   \<and> parse_line initial ([32, 9] @ py ''== Hardmode =='' @ [32])
       = phase_branch initial (strip (py ''== Hardmode ==''))
   \<and> parse_line initial ([32, 9] @ py ''== Hardmode =='' @ [32])
       \<noteq> class_branch initial (strip (py ''== Hardmode ==''))"
proof -
  have w: "list_all isspace [32, 9]" "list_all isspace [32]" by (simp_all add: isspace_def)
  have c: "startswith (strip (py ''=== Ranged ==='')) (py ''==='')" by (simp add: ev)
  have p: "startswith (strip (py ''== Hardmode =='')) (py ''=='')"
    "\<not> startswith (strip (py ''== Hardmode =='')) (py ''==='')" by (simp_all add: ev)
  show ?thesis
    using heading_depth_precedence [OF w, of "py ''=== Ranged ===''" initial]
      heading_depth_precedence [OF w, of "py ''== Hardmode ==''" initial] w c p
    by blast
qed

section \<open>C7: the item template comes first\<close>

text \<open>
  C7, as the code has it. For a bullet line in which both patterns match, under an
  active phase, class and category, \<open>_extract_item_name\<close> returns the capture of the item
  template, trimmed, and that name is the one appended to the item list, unless it is
  empty: then nothing is appended. The name of the wiki link is not used in either case.
\<close>

theorem item_template_has_priority:
  assumes "bullet_line raw" "phase st = Some p" "p \<noteq> []" "terraria_class st = Some c" "c \<noteq> []"
    "category st = Some k" "k \<noteq> []" "lookup3 (result st) p c k = Some items"
    "re_search ITEM_TEMPLATE_RE (strip raw) = Some g"
    "re_search WIKI_LINK_RE (strip raw) = Some g'"
  shows "extract_item_name (strip raw) = Some (strip g)
       \<and> (\<exists>st'. parse_line st raw = Inr st'
             \<and> lookup3 (result st') p c k = Some (if strip g = [] then items else items @ [strip g]))"
proof -
  have e: "extract_item_name (strip raw) = Some (strip g)"
    using assms(9) by (simp add: extract_item_name_def)
  from bullet_step [OF assms(1-8)] obtain st' where "parse_line st raw = Inr st'"
    "lookup3 (result st') p c k = Some (items @ recorded raw)" by blast
  then show ?thesis using e by (auto simp: recorded_def)
qed

text \<open>C7 on the line \<open>* [[Bow]] {{item| Sword |x}}\<close>: the name recorded is \<open>Sword\<close>.\<close>

theorem item_template_has_priority_witness:
  "bullet_line (py ''* [[Bow]] {{item| Sword |x}}'')
   \<and> re_search ITEM_TEMPLATE_RE (strip (py ''* [[Bow]] {{item| Sword |x}}'')) = Some (py '' Sword '')
   \<and> re_search WIKI_LINK_RE (strip (py ''* [[Bow]] {{item| Sword |x}}'')) = Some (py ''Bow'')
   \<and> extract_item_name (strip (py ''* [[Bow]] {{item| Sword |x}}'')) = Some (py ''Sword'')
   \<and> (\<exists>st'. parse_line example_state (py ''* [[Bow]] {{item| Sword |x}}'') = Inr st'
         \<and> lookup3 (result st') (py ''P'') (py ''C'') (py ''W'') = Some [py ''Sword''])"
proof -
  have h: "bullet_line (py ''* [[Bow]] {{item| Sword |x}}'')"
    "re_search ITEM_TEMPLATE_RE (strip (py ''* [[Bow]] {{item| Sword |x}}'')) = Some (py '' Sword '')"
    "re_search WIKI_LINK_RE (strip (py ''* [[Bow]] {{item| Sword |x}}'')) = Some (py ''Bow'')"
    by (simp_all add: ev bullet_line_def)
  have s: "strip (py '' Sword '') = py ''Sword''" by (simp add: ev)
  from item_template_has_priority [OF h(1) example_state_active h(2,3)] h s
  show ?thesis by (simp add: py_def)
qed

text \<open>
  C7 as stated fails when the capture of the item template is blank: on the line
  \<open>* {{item| |x}} [[Bow]]\<close> both patterns match, the trimmed capture is empty, and no
  name is recorded, neither the capture nor \<open>Bow\<close>.
\<close>

theorem item_template_blank_counterexample:
  "bullet_line (py ''* {{item| |x}} [[Bow]]'')
   \<and> re_search ITEM_TEMPLATE_RE (strip (py ''* {{item| |x}} [[Bow]]'')) = Some (py '' '')
   \<and> re_search WIKI_LINK_RE (strip (py ''* {{item| |x}} [[Bow]]'')) = Some (py ''Bow'')
   \<and> strip (py '' '') = []
   \<and> extract_item_name (strip (py ''* {{item| |x}} [[Bow]]'')) = Some []
   \<and> lookup3 (result example_state) (py ''P'') (py ''C'') (py ''W'') = Some []
   \<and> parse_line example_state (py ''* {{item| |x}} [[Bow]]'') = Inr example_state
   \<and> parse_guide (py ''== P =='' @ [10] @ py ''=== C ==='' @ [10] @ py '';W'' @ [10]
                    @ py ''* {{item| |x}} [[Bow]]'')
       = Inr [(py ''P'', [(py ''C'', [(py ''W'', [])])])]"
  by (simp add: ev bullet_line_def example_state_def lookup3_def lookup2_def)

section \<open>C8: items are appended in line order\<close>

text \<open>
  C8, as the code has it. A run of bullet lines under one active phase, class and
  category extends the item list of that category by the names extracted from them,
  in line order and with duplicates kept; a bullet line from which no name is extracted
  adds nothing. When a name is extracted from each of the \<open>N\<close> lines, exactly \<open>N\<close> entries
  are added.
\<close>

theorem bullets_append_in_order:
  assumes "phase st = Some p" "p \<noteq> []" "terraria_class st = Some c" "c \<noteq> []"
    "category st = Some k" "k \<noteq> []" "lookup3 (result st) p c k = Some items"
    "list_all bullet_line ls"
  shows "\<exists>st'. parse_lines st ls = Inr st'
           \<and> lookup3 (result st') p c k = Some (items @ item_names ls)
           \<and> (list_all (\<lambda>l. \<exists>n. extract_item_name (strip l) = Some n \<and> n \<noteq> []) ls \<longrightarrow>
                item_names ls = map (\<lambda>l. the (extract_item_name (strip l))) ls
                \<and> length (item_names ls) = length ls)"
proof -
  from bullets_run [OF assms] obtain st' where "parse_lines st ls = Inr st'"
    "lookup3 (result st') p c k = Some (items @ item_names ls)" by blast
  then show ?thesis using item_names_all [of ls] by auto
qed

text \<open>C8, as the code has it, on three bullet lines, two of them naming \<open>Bow\<close>.\<close>

theorem bullets_append_in_order_witness:
  "list_all bullet_line [py ''* [[Bow]]'', py ''* {{item|Sword}}'', py ''* [[Bow]]'']
   \<and> list_all (\<lambda>l. \<exists>n. extract_item_name (strip l) = Some n \<and> n \<noteq> [])
        [py ''* [[Bow]]'', py ''* {{item|Sword}}'', py ''* [[Bow]]'']
   \<and> item_names [py ''* [[Bow]]'', py ''* {{item|Sword}}'', py ''* [[Bow]]'']
       = [py ''Bow'', py ''Sword'', py ''Bow'']
   \<and> (\<exists>st'. parse_lines example_state [py ''* [[Bow]]'', py ''* {{item|Sword}}'', py ''* [[Bow]]'']
               = Inr st'
         \<and> lookup3 (result st') (py ''P'') (py ''C'') (py ''W'')
             = Some [py ''Bow'', py ''Sword'', py ''Bow''])"
proof -
  have b: "list_all bullet_line [py ''* [[Bow]]'', py ''* {{item|Sword}}'', py ''* [[Bow]]'']"
    by (simp add: ev bullet_line_def)
  have e: "list_all (\<lambda>l. \<exists>n. extract_item_name (strip l) = Some n \<and> n \<noteq> [])
        [py ''* [[Bow]]'', py ''* {{item|Sword}}'', py ''* [[Bow]]'']"
    by (simp add: ev)
  have n: "item_names [py ''* [[Bow]]'', py ''* {{item|Sword}}'', py ''* [[Bow]]'']
       = [py ''Bow'', py ''Sword'', py ''Bow'']"
    by (simp add: ev item_names_def recorded_def)
  from bullets_append_in_order [OF example_state_active b] b e n
  show ?thesis by auto
qed

text \<open>
  C8 as stated fails: under \<open>== P ==\<close>, \<open>=== C ===\<close> and \<open>;W\<close>, the one bullet line
  \<open>* plain text\<close> leaves the item list of \<open>W\<close> with no entry.
\<close>

theorem bullets_append_counterexample:
  "bullet_line (py ''* plain text'')
   \<and> parse_guide (py ''== P =='' @ [10] @ py ''=== C ==='' @ [10] @ py '';W'' @ [10]
                    @ py ''* plain text'')
       = Inr [(py ''P'', [(py ''C'', [(py ''W'', [])])])]"
  by (simp add: ev bullet_line_def)

section \<open>C9: the cold start\<close>

text \<open>
  C9. With no cached index, a failed fetch reaches the caller as the failure, and the
  cache slot and the timestamp are what they were: nothing is stored.
\<close>

theorem cold_start_failure_propagates:
  assumes "GuideCache s = []"
  shows "fst (get_guide_data now (Inl e) s) = Inl e
       \<and> GuideCache (snd (get_guide_data now (Inl e) s)) = GuideCache s
       \<and> GuideFetchedAt (snd (get_guide_data now (Inl e) s)) = GuideFetchedAt s"
  using assms by (simp add: get_guide_data_def fetch_wikitext_def)

theorem cold_start_failure_propagates_witness:
  "GuideCache empty_provider = []
   \<and> get_guide_data 100 (Inl FetchUnavailable) empty_provider
       = (Inl FetchUnavailable, \<lparr>GuideCache = [], GuideFetchedAt = None, fetches = 1\<rparr>)"
  using cold_start_failure_propagates [of empty_provider 100 FetchUnavailable]
  by (simp add: get_guide_data_def fetch_wikitext_def empty_provider_def)

section \<open>C10: an empty index is never served from the cache\<close>

text \<open>
  C10. After a refresh that stored an empty index, every later call fetches again,
  whatever the clock reads: the calls \<open>cs\<close> that follow, whose fetches fail or yield
  pages with an empty index again, make one fetch each, and so does the call after
  them, whatever the wiki answers then.
\<close>

theorem empty_index_always_refetches:
  assumes "parse_guide text = Inr []"
    and "fetches (snd (get_guide_data t0 (Inr text) s0)) = fetches s0 + 1"
    and "list_all (\<lambda>(now, net). \<forall>text'. net = Inr text' \<longrightarrow> parse_guide text' = Inr []) cs"
  shows "GuideCache (snd (get_guide_data t0 (Inr text) s0)) = []
       \<and> GuideFetchedAt (snd (get_guide_data t0 (Inr text) s0)) = Some t0
       \<and> fetches (calls (snd (get_guide_data t0 (Inr text) s0)) cs)
           = fetches (snd (get_guide_data t0 (Inr text) s0)) + length cs
       \<and> fetches (snd (get_guide_data now net (calls (snd (get_guide_data t0 (Inr text) s0)) cs)))
           = fetches (calls (snd (get_guide_data t0 (Inr text) s0)) cs) + 1"
proof -
  have 1: "GuideCache (snd (get_guide_data t0 (Inr text) s0)) = []
         \<and> GuideFetchedAt (snd (get_guide_data t0 (Inr text) s0)) = Some t0"
    using assms(1,2)
    by (auto simp: get_guide_data_def fetch_wikitext_def split: if_splits)
  from 1 calls_empty [OF _ assms(3)]
  have 2: "fetches (calls (snd (get_guide_data t0 (Inr text) s0)) cs)
           = fetches (snd (get_guide_data t0 (Inr text) s0)) + length cs"
    "GuideCache (calls (snd (get_guide_data t0 (Inr text) s0)) cs) = []" by blast+
  from 1 2 fetch_when_empty [OF 2(2), of now net] show ?thesis by blast
qed

text \<open>
  C10 on a page without headings fetched at time 100: a call at time 100 whose fetch
  fails, a call at 101 and a call at 102 all fetch.
\<close>

theorem empty_index_always_refetches_witness:
  "parse_guide (py ''no headings'') = Inr []
   \<and> get_guide_data 100 (Inr (py ''no headings'')) empty_provider
       = (Inr [], \<lparr>GuideCache = [], GuideFetchedAt = Some 100, fetches = 1\<rparr>)
   \<and> list_all (\<lambda>(now, net). \<forall>text'. net = Inr text' \<longrightarrow> parse_guide text' = Inr [])
        [(100, Inl FetchUnavailable), (101, Inr (py ''no headings''))]
   \<and> fetches (calls \<lparr>GuideCache = [], GuideFetchedAt = Some 100, fetches = 1\<rparr>
        [(100, Inl FetchUnavailable), (101, Inr (py ''no headings''))]) = 3
   \<and> fetches (snd (get_guide_data 102 (Inr (py ''== P ==''))
        (calls \<lparr>GuideCache = [], GuideFetchedAt = Some 100, fetches = 1\<rparr>
        [(100, Inl FetchUnavailable), (101, Inr (py ''no headings''))]))) = 4"
proof -
  have p: "parse_guide (py ''no headings'') = Inr []" by (simp add: ev)
  have g: "get_guide_data 100 (Inr (py ''no headings'')) empty_provider
       = (Inr [], \<lparr>GuideCache = [], GuideFetchedAt = Some 100, fetches = 1\<rparr>)"
    by (simp add: get_guide_data_def fetch_wikitext_def empty_provider_def p)
  have f: "fetches (snd (get_guide_data 100 (Inr (py ''no headings'')) empty_provider))
       = fetches empty_provider + 1"
    unfolding g by (simp add: empty_provider_def)
  have l: "list_all (\<lambda>(now, net). \<forall>text'. net = Inr text' \<longrightarrow> parse_guide text' = Inr [])
        [(100, Inl FetchUnavailable), (101, Inr (py ''no headings''))]"
    by (simp add: p)
  from empty_index_always_refetches [OF p f l, of 102 "Inr (py ''== P =='')"] p g l
  show ?thesis by simp
qed

end
